theory Spec2Isabelle
  imports Main "HOL-Library.Sublist" "HOL-Library.Word"
begin

unbundle bit_operations_syntax

section \<open>The log normalizer of teamcityrun: data model\<close>

text \<open>
  The development follows \<^verbatim>\<open>logparse\<close> and \<^verbatim>\<open>cleanupLog\<close> of the Go source.
  Go strings are byte sequences, so they are \<^typ>\<open>string\<close> here (a list of 8-bit characters).
  A panic is a value of type \<open>error\<close>; a function that may panic returns \<open>error + 'a\<close>.
\<close>

definition TAB :: char where "TAB = CHR 0x09"
definition LF :: char where "LF = CHR 0x0A"
definition CR :: char where "CR = CHR 0x0D"

datatype reason = ExpectingByte char | ExpectingChars nat

datatype error =
    CouldNotParse string reason
  | TestOutputNotFollowed
  | SliceBoundsOutOfRange nat nat
  | IndexOutOfRange

text \<open>
  \<^verbatim>\<open>type testEvent struct\<close>. The field \<^verbatim>\<open>Elapsed\<close> is a \<^verbatim>\<open>float64\<close>; its type is the
  parameter \<open>'f\<close>, and the \<^verbatim>\<open>%g\<close> formatting of it is a parameter of the functions that print it.
\<close>

record 'f testEvent =
  Time :: string
  Action :: string
  Package :: string
  Test :: string
  Elapsed :: 'f
  Output :: string

text \<open>\<^verbatim>\<open>type logline struct\<close>; a nil \<^verbatim>\<open>*testEvent\<close> is \<open>None\<close>.\<close>

record 'f logline =
  raw :: string
  time :: int
  indent :: nat
  tags :: "string list"
  text' :: string
  addtext :: string
  testEvent :: "'f testEvent option"

definition andThen :: "'e + 'a \<Rightarrow> ('a \<Rightarrow> 'e + 'b) \<Rightarrow> 'e + 'b" where
  "andThen m f = (case m of Inl e \<Rightarrow> Inl e | Inr x \<Rightarrow> f x)"

section \<open>Line parser\<close>

text \<open>
  \<^verbatim>\<open>strconv.Atoi\<close> on a short string (the parser passes exactly two bytes): an optional sign,
  then at least one character, all of them decimal digits; anything else is a syntax error
  (\<open>None\<close>). The byte arithmetic \<^verbatim>\<open>ch -= '0'; if ch > 9\<close> is the digit test.
\<close>

definition isDigit :: "char \<Rightarrow> bool" where
  "isDigit c = (48 \<le> (of_char c :: nat) \<and> (of_char c :: nat) \<le> 57)"

definition digitVal :: "char \<Rightarrow> int" where
  "digitVal c = int (of_char c) - 48"

fun digits :: "string \<Rightarrow> int \<Rightarrow> int option" where
  "digits [] n = Some n"
| "digits (c # cs) n = (if isDigit c then digits cs (n * 10 + digitVal c) else None)"

definition Atoi :: "string \<Rightarrow> int option" where
  "Atoi s =
     (if s = [] then None
      else let body = (if hd s = CHR ''-'' \<or> hd s = CHR ''+'' then tl s else s)
           in if body = [] then None
              else (case digits body 0 of
                      None \<Rightarrow> None
                    | Some n \<Rightarrow> Some (if hd s = CHR ''-'' then - n else n)))"

text \<open>\<^verbatim>\<open>hour, _ := strconv.Atoi(...)\<close>: the error is dropped and the value is 0 on error.\<close>

definition atoiOrZero :: "string \<Rightarrow> int" where
  "atoiOrZero s = (case Atoi s of None \<Rightarrow> 0 | Some n \<Rightarrow> n)"

text \<open>The closures of \<^verbatim>\<open>logparse\<close>; the variable \<^verbatim>\<open>rest\<close> is passed along.\<close>

definition expectByte :: "string \<Rightarrow> char \<Rightarrow> string \<Rightarrow> error + string" where
  "expectByte line b rest =
     (if rest = [] \<or> hd rest \<noteq> b then Inl (CouldNotParse line (ExpectingByte b))
      else Inr (tl rest))"

definition expectLen :: "string \<Rightarrow> nat \<Rightarrow> string \<Rightarrow> error + (string \<times> string)" where
  "expectLen line n rest =
     (if length rest < n then Inl (CouldNotParse line (ExpectingChars n))
      else Inr (take n rest, drop n rest))"

definition consumeMaybe :: "char \<Rightarrow> string \<Rightarrow> string" where
  "consumeMaybe b rest = (if rest \<noteq> [] \<and> hd rest = b then tl rest else rest)"

text \<open>The indentation loop: counts and removes the leading tabs.\<close>

fun skipTabs :: "string \<Rightarrow> nat \<Rightarrow> nat \<times> string" where
  "skipTabs [] n = (n, [])"
| "skipTabs (c # cs) n = (if c = TAB then skipTabs cs (Suc n) else (n, c # cs))"

text \<open>
  The tag loop. After the opening bracket is removed, the inner loop looks for the first
  closing bracket; when there is none the loop ends, with the opening bracket already consumed.
\<close>

function parseTags :: "string \<Rightarrow> string list \<Rightarrow> string list \<times> string" where
  "parseTags rest tgs =
     (let r1 = consumeMaybe (CHR '' '') rest in
      if r1 = [] \<or> hd r1 \<noteq> CHR ''['' then (tgs, r1)
      else let r2 = tl r1 in
        if CHR '']'' \<in> set r2
        then parseTags (tl (dropWhile (\<lambda>c. c \<noteq> CHR '']'') r2))
                       (tgs @ [takeWhile (\<lambda>c. c \<noteq> CHR '']'') r2])
        else (tgs, r2))"
  by pat_completeness auto
termination
proof (relation "measure (\<lambda>(rest, tgs). length rest)", goal_cases)
  case 1
  show ?case by simp
next
  case (2 rest tgs r1 r2)
  from 2(2) have ne: "r1 \<noteq> []" by blast
  have "length (dropWhile (\<lambda>c. c \<noteq> CHR '']'') (tl r1)) \<le> length (tl r1)"
    by (rule length_dropWhile_le)
  with ne have "length (tl (dropWhile (\<lambda>c. c \<noteq> CHR '']'') (tl r1))) < length r1"
    by (cases r1) auto
  also have "length r1 \<le> length rest"
    unfolding 2(1) by (simp add: consumeMaybe_def)
  finally show ?case unfolding 2(3) by simp
qed

declare parseTags.simps [simp del]

definition logparse :: "string \<Rightarrow> error + 'f logline option" where
  "logparse line =
     (if line \<noteq> [] \<and> hd line \<noteq> CHR ''['' then Inr None
      else
        andThen (expectByte line (CHR ''['') line) (\<lambda>r0.
        andThen (expectLen line 2 r0) (\<lambda>(hh, r1).
        andThen (expectByte line (CHR '':'') r1) (\<lambda>r2.
        andThen (expectLen line 2 r2) (\<lambda>(mm, r3).
        andThen (expectByte line (CHR '':'') r3) (\<lambda>r4.
        andThen (expectLen line 2 r4) (\<lambda>(ss, r5).
        andThen (expectByte line (CHR '']'') r5) (\<lambda>r6.
        andThen (expectLen line 1 r6) (\<lambda>(flags, r7).
        andThen (expectByte line (CHR '':'') r7) (\<lambda>r8.
          let (ind, r9) = skipTabs r8 0;
              (tgs, r10) = parseTags r9 []
          in Inr (Some \<lparr> raw = line,
                          time = atoiOrZero hh * 60 * 60 + atoiOrZero mm * 60 + atoiOrZero ss,
                          indent = ind, tags = tgs, text' = r10, addtext = [],
                          testEvent = None \<rparr>)))))))))))"

section \<open>Context tracker\<close>

text \<open>
  \<^verbatim>\<open>stack := make([]string, 0, 20)\<close> is a slice: a backing array of 20 strings and a
  length. Reslicing \<^verbatim>\<open>stack[:n]\<close> keeps the backing array, so slots above the old length
  hold whatever an earlier, deeper record left there, and panics when \<open>n\<close> exceeds the capacity.
\<close>

record slice =
  backing :: "string list"
  slen :: nat

definition newStack :: slice where
  "newStack = \<lparr> backing = replicate 20 [], slen = 0 \<rparr>"

definition cap :: "slice \<Rightarrow> nat" where
  "cap s = length (backing s)"

definition view :: "slice \<Rightarrow> string list" where
  "view s = take (slen s) (backing s)"

definition treeize :: "slice \<Rightarrow> 'f logline \<Rightarrow> error + slice" where
  "treeize stack ll =
     (if indent ll > cap stack then Inl (SliceBoundsOutOfRange (indent ll) (cap stack))
      else
        let pl = slen stack;
            s1 = stack\<lparr> slen := indent ll \<rparr>;
            s2 = s1\<lparr> backing := fold (\<lambda>i a. a[i := []]) [pl..<slen s1] (backing s1) \<rparr>
        in if tags ll \<noteq> [] \<and> length (tags ll) > slen s2 then Inl IndexOutOfRange
           else Inr (s2\<lparr> backing :=
                       fold (\<lambda>i a. a[slen s2 - length (tags ll) + i := tags ll ! i])
                            [0..<length (tags ll)] (backing s2) \<rparr>))"

definition topOfStackIs :: "slice \<Rightarrow> string \<Rightarrow> bool" where
  "topOfStackIs stack s = (slen stack > 0 \<and> backing stack ! (slen stack - 1) = s)"

definition stackHas :: "slice \<Rightarrow> string \<Rightarrow> bool" where
  "stackHas stack s = (s \<in> set (view stack))"

section \<open>Verbosity policies\<close>

text \<open>\<^verbatim>\<open>var mode uint16\<close> and the capability bits \<^verbatim>\<open>1 << iota\<close>.\<close>

type_synonym mode = "16 word"

definition modeRawText :: mode where "modeRawText = push_bit 0 1"
definition modeShowHeader :: mode where "modeShowHeader = push_bit 1 1"
definition modeShowTestOutput :: mode where "modeShowTestOutput = push_bit 2 1"
definition modeShowRoot :: mode where "modeShowRoot = push_bit 3 1"
definition modeShowStep1 :: mode where "modeShowStep1 = push_bit 4 1"
definition modeShowStep2 :: mode where "modeShowStep2 = push_bit 5 1"
definition modeShowStep2Top :: mode where "modeShowStep2Top = push_bit 6 1"
definition modeShowStep2OutputActions :: mode where "modeShowStep2OutputActions = push_bit 7 1"
definition modeSkipBeforeDwz :: mode where "modeSkipBeforeDwz = push_bit 8 1"
definition modeSkipJson :: mode where "modeSkipJson = push_bit 9 1"
definition modeSkipBeforeMakeTest :: mode where "modeSkipBeforeMakeTest = push_bit 10 1"
definition modeMassaged :: mode where "modeMassaged = push_bit 11 1"
definition modeShowOnlyFailed :: mode where "modeShowOnlyFailed = push_bit 12 1"

text \<open>The test \<^verbatim>\<open>mode&flag != 0\<close>.\<close>

definition has :: "mode \<Rightarrow> mode \<Rightarrow> bool" where
  "has m flag = (m AND flag \<noteq> 0)"

text \<open>
  The \<^verbatim>\<open>switch verbose\<close>: 0 is \<^verbatim>\<open>verboseNothing\<close>, 1 is \<^verbatim>\<open>verboseGoTestVerbose\<close>, 2 is
  \<^verbatim>\<open>verboseTestOutput\<close>; 3 (\<^verbatim>\<open>verboseAllText\<close>) and every other value take the default branch.
\<close>

definition modeOf :: "int \<Rightarrow> mode" where
  "modeOf verbose =
     (if verbose = 0 then
        modeShowHeader OR modeShowStep2Top OR modeMassaged OR modeSkipBeforeMakeTest
          OR modeShowOnlyFailed OR modeSkipJson
      else if verbose = 1 then
        modeShowHeader OR modeShowStep2Top OR modeShowStep2OutputActions OR modeMassaged
          OR modeSkipJson OR modeSkipBeforeDwz
      else if verbose = 2 then
        modeShowHeader OR modeShowRoot OR modeShowStep1 OR modeShowStep2 OR modeShowTestOutput
          OR modeMassaged OR modeSkipJson
      else modeRawText OR modeShowHeader)"

section \<open>Rendering engine\<close>

text \<open>
  The variables of \<^verbatim>\<open>cleanupLog\<close> that live across loop iterations, and the standard output
  as the list of the strings printed so far. Every \<^verbatim>\<open>Printf\<close> of the function ends with a
  newline; \<open>out\<close> holds each printed string without that final newline.
\<close>

record 'f state =
  stack :: slice
  lastTime :: int
  first :: bool
  firstMassaged :: bool
  afterDwz :: bool
  afterMakeTest :: bool
  cached :: "'f logline list"
  out :: "string list"

definition initState :: "'f state" where
  "initState = \<lparr> stack = newStack, lastTime = 0, first = True, firstMassaged = True,
                  afterDwz = False, afterMakeTest = False, cached = [], out = [] \<rparr>"

definition print :: "string \<Rightarrow> 'f state \<Rightarrow> 'f state" where
  "print s st = st\<lparr> out := out st @ [s] \<rparr>"

text \<open>Decimal digits of a natural number, and the verb \<^verbatim>\<open>% 4d\<close> of package fmt: a space in
  place of the sign of a non-negative number, padded with spaces on the left to width 4.\<close>

function showNat :: "nat \<Rightarrow> string" where
  "showNat n = (if n < 10 then [char_of (48 + n)]
                else showNat (n div 10) @ [char_of (48 + n mod 10)])"
  by pat_completeness auto
termination
  by (relation "measure (\<lambda>n. n)") auto

declare showNat.simps [simp del]

definition padLeft :: "nat \<Rightarrow> string \<Rightarrow> string" where
  "padLeft w s = replicate (w - length s) (CHR '' '') @ s"

definition fmtSpace4d :: "int \<Rightarrow> string" where
  "fmtSpace4d d = padLeft 4 ((if d < 0 then CHR ''-'' else CHR '' '') # showNat (nat \<bar>d\<bar>))"

text \<open>The column header \<^verbatim>\<open>"  \<Delta>T\tTEXT"\<close>; the capital delta is the two bytes CE 94 in UTF-8.\<close>

definition columnHeader :: string where
  "columnHeader = [CHR '' '', CHR '' '', CHR 0xCE, CHR 0x94, CHR ''T'', TAB] @ ''TEXT''"

definition stripEOL :: "string \<Rightarrow> string" where
  "stripEOL t =
     (if t \<noteq> [] \<and> last t = LF
      then (let t1 = butlast t in if t1 \<noteq> [] \<and> last t1 = CR then butlast t1 else t1)
      else t)"

text \<open>
  The closure \<^verbatim>\<open>emitMassaged\<close>. It reads the variable \<^verbatim>\<open>ll\<close> of the enclosing iteration
  for the time; the record is a parameter here, since \<^verbatim>\<open>dumpCached\<close> reassigns that variable.
\<close>

definition emitMassaged :: "'f logline \<Rightarrow> string \<Rightarrow> 'f state \<Rightarrow> 'f state" where
  "emitMassaged ll t st =
     (let st1 = (if firstMassaged st then print columnHeader (st\<lparr> firstMassaged := False \<rparr>)
                 else st);
          t1 = stripEOL t;
          st2 = (if time ll - lastTime st1 > 0
                 then print (fmtSpace4d (time ll - lastTime st1) @ [TAB] @ t1) st1
                 else print (''    '' @ [TAB] @ t1) st1)
      in st2\<lparr> lastTime := time ll \<rparr>)"

text \<open>
  The latched emitters. The variable \<^verbatim>\<open>emitted\<close> is local to one iteration; it is the first
  component of the pair that the display rules pass along.
\<close>

definition emitText :: "'f logline \<Rightarrow> bool \<times> 'f state \<Rightarrow> bool \<times> 'f state" where
  "emitText ll x = (if fst x then x else (True, emitMassaged ll (text' ll) (snd x)))"

definition emitRaw :: "'f logline \<Rightarrow> bool \<times> 'f state \<Rightarrow> bool \<times> 'f state" where
  "emitRaw ll x = (if fst x then x else (True, print (raw ll) (snd x)))"

definition showRootRule :: "mode \<Rightarrow> 'f logline \<Rightarrow> bool \<times> 'f state \<Rightarrow> bool \<times> 'f state" where
  "showRootRule m ll x =
     (if has m modeShowRoot \<and> slen (stack (snd x)) = 0
      then (if has m modeMassaged then emitText ll x else emitRaw ll x)
      else x)"

definition showStep1Rule :: "mode \<Rightarrow> 'f logline \<Rightarrow> bool \<times> 'f state \<Rightarrow> bool \<times> 'f state" where
  "showStep1Rule m ll x =
     (if has m modeShowStep1 \<and> stackHas (stack (snd x)) ''Step 1/2''
      then (if has m modeMassaged then emitText ll x else emitRaw ll x)
      else x)"

definition shouldShow :: "mode \<Rightarrow> 'f logline \<Rightarrow> 'f state \<Rightarrow> bool" where
  "shouldShow m ll st =
     (let s0 = True;
          s1 = (if has m modeSkipBeforeDwz \<and> \<not> afterDwz st then False else s0);
          s2 = (if has m modeSkipJson \<and> testEvent ll \<noteq> None then False else s1);
          s3 = (if has m modeShowStep2Top \<and> \<not> topOfStackIs (stack st) ''Step 2/2''
                then False else s2);
          s4 = (if has m modeSkipBeforeMakeTest \<and> \<not> afterMakeTest st then False else s3)
      in s4)"

definition showStep2Rule :: "mode \<Rightarrow> 'f logline \<Rightarrow> bool \<times> 'f state \<Rightarrow> bool \<times> 'f state" where
  "showStep2Rule m ll x =
     (let st = snd x in
      if (has m modeShowStep2 \<or> has m modeShowStep2Top)
         \<and> (stackHas (stack st) ''Step 2/2'' \<or> stackHas (stack st) ''Step 1/1'')
         \<and> shouldShow m ll st
      then
        (if has m modeMassaged
         then (if \<not> topOfStackIs (stack st) ''Test Output'' then emitText ll x else x)
         else (if topOfStackIs (stack st) ''Test Output''
               then (if has m modeShowTestOutput then emitRaw ll x else x)
               else emitRaw ll x))
      else x)"

definition showTestOutputRule ::
  "mode \<Rightarrow> 'f logline \<Rightarrow> bool \<times> 'f state \<Rightarrow> bool \<times> 'f state" where
  "showTestOutputRule m ll x =
     (if has m modeShowTestOutput \<and> topOfStackIs (stack (snd x)) ''Test Output''
      then (if has m modeMassaged then (fst x, emitMassaged ll (addtext ll) (snd x))
            else (fst x, print (addtext ll) (snd x)))
      else x)"

definition onlyFailedGoRule ::
  "mode \<Rightarrow> bool \<Rightarrow> 'f logline \<Rightarrow> bool \<times> 'f state \<Rightarrow> bool \<times> 'f state" where
  "onlyFailedGoRule m buildStep ll x =
     (if has m modeShowOnlyFailed \<and> buildStep \<and> prefix ''Go '' (text' ll)
      then emitText ll x else x)"

definition outputActionsRule :: "mode \<Rightarrow> 'f logline \<Rightarrow> 'f state \<Rightarrow> 'f state" where
  "outputActionsRule m ll st =
     (if has m modeShowStep2OutputActions
      then (case testEvent ll of
              None \<Rightarrow> st
            | Some te \<Rightarrow> if Action te = ''output'' then emitMassaged ll (Output te) st else st)
      else st)"

definition failRule :: "mode \<Rightarrow> 'f logline \<Rightarrow> 'f state \<Rightarrow> 'f state" where
  "failRule m ll st =
     (if \<not> has m modeShowOnlyFailed
      then (case testEvent ll of
              None \<Rightarrow> st
            | Some te \<Rightarrow>
                if Action te = ''fail'' \<and> \<not> has m modeShowStep2OutputActions
                then emitMassaged ll (''FAIL'' @ [TAB] @ Package te) st else st)
      else st)"

subsection \<open>Only-failed aggregation\<close>

text \<open>
  \<^verbatim>\<open>dumpCached\<close>: the loop assigns each buffered record to \<^verbatim>\<open>ll\<close>, so \<^verbatim>\<open>emitMassaged\<close> takes
  the time from that record. Only records with an event are ever appended to \<^verbatim>\<open>cached\<close>
  (lemma \<open>cached_events\<close> below), so the dereference \<^verbatim>\<open>ll.testEvent.Action\<close> finds an event.
\<close>

definition dumpOne :: "'f logline \<Rightarrow> 'f state \<Rightarrow> 'f state" where
  "dumpOne c st =
     (case testEvent c of
        None \<Rightarrow> st
      | Some te \<Rightarrow> if Action te = ''output'' then emitMassaged c (Output te) st else st)"

definition dumpCached :: "'f state \<Rightarrow> 'f state" where
  "dumpCached st = (fold dumpOne (cached st) st)\<lparr> cached := [] \<rparr>"

text \<open>The parameter \<open>fmtG\<close> is the verb \<^verbatim>\<open>%g\<close> of package fmt on a \<^verbatim>\<open>float64\<close>.\<close>

definition onlyFailedRule ::
  "mode \<Rightarrow> ('f \<Rightarrow> string) \<Rightarrow> 'f logline \<Rightarrow> 'f state \<Rightarrow> 'f state" where
  "onlyFailedRule m fmtG ll st =
     (if has m modeShowOnlyFailed
      then (case testEvent ll of
              None \<Rightarrow> st
            | Some te \<Rightarrow>
                let st1 = st\<lparr> cached := cached st @ [ll] \<rparr> in
                if Test te = [] then
                  (if Action te = ''pass'' then
                     (emitMassaged ll (Package te @ [TAB] @ fmtG (Elapsed te) @ ''s'') st1)
                       \<lparr> cached := [] \<rparr>
                   else if Action te = ''skip'' then
                     (emitMassaged ll (Package te @ [TAB] @ ''[no test files]'') st1)
                       \<lparr> cached := [] \<rparr>
                   else if Action te = ''output'' then st1
                   else if Action te = ''fail'' then
                     (emitMassaged ll (Package te @ [TAB] @ ''FAIL'') (dumpCached st1))
                       \<lparr> cached := [] \<rparr>
                   else
                     (emitMassaged ll (Package te @ [TAB] @ Action te) st1)\<lparr> cached := [] \<rparr>)
                else
                  (if Action te = ''pass'' then st1\<lparr> cached := [] \<rparr>
                   else if Action te = ''fail'' then dumpCached st1
                   else st1))
      else st)"

subsection \<open>One record\<close>

text \<open>
  The parameter \<open>decode\<close> is \<^verbatim>\<open>json.Unmarshal\<close> into a fresh \<^verbatim>\<open>testEvent\<close>: \<open>None\<close> when it
  returns an error, the decoded event otherwise.
\<close>

definition extractEvent ::
  "(string \<Rightarrow> 'f testEvent option) \<Rightarrow> bool \<Rightarrow> 'f logline \<Rightarrow> 'f logline" where
  "extractEvent decode buildStep ll =
     (if buildStep \<and> text' ll \<noteq> [] \<and> hd (text' ll) = CHR ''{''
      then (case decode (text' ll) of
              None \<Rightarrow> ll
            | Some te \<Rightarrow> if Action te \<noteq> [] then ll\<lparr> testEvent := Some te \<rparr> else ll)
      else ll)"

definition updateFlags :: "bool \<Rightarrow> 'f logline \<Rightarrow> 'f state \<Rightarrow> 'f state" where
  "updateFlags buildStep ll st =
     (let st1 = (if \<not> afterDwz st \<and> buildStep \<and> prefix ''+ dwz --version'' (text' ll)
                 then st\<lparr> afterDwz := True \<rparr> else st);
          st2 = (if \<not> afterMakeTest st1 \<and> buildStep \<and> prefix ''+ make test'' (text' ll)
                 then st1\<lparr> afterMakeTest := True \<rparr> else st1);
          st3 = (if (\<not> afterDwz st2 \<or> \<not> afterMakeTest st2) \<and> buildStep
                    \<and> prefix ''Finding latest patch'' (text' ll)
                 then st2\<lparr> afterMakeTest := True, afterDwz := True \<rparr> else st2)
      in st3)"

definition isBuildStep :: "slice \<Rightarrow> bool" where
  "isBuildStep stk = (topOfStackIs stk ''Step 2/2'' \<or> topOfStackIs stk ''Step 1/1'')"

text \<open>
  The body of the main loop from the computation of \<^verbatim>\<open>buildStep\<close> on, for a record whose
  tags are already in the stack and whose \<^verbatim>\<open>addtext\<close> is already read.
\<close>

definition processRecord ::
  "mode \<Rightarrow> (string \<Rightarrow> 'f testEvent option) \<Rightarrow> ('f \<Rightarrow> string) \<Rightarrow> 'f logline \<Rightarrow> 'f state
     \<Rightarrow> 'f state" where
  "processRecord m decode fmtG ll0 st0 =
     (let buildStep = isBuildStep (stack st0);
          ll = extractEvent decode buildStep ll0;
          st1 = updateFlags buildStep ll st0;
          st2 = (if first st1 then st1\<lparr> first := False, lastTime := time ll \<rparr> else st1);
          x0 = (False, st2);
          x1 = showRootRule m ll x0;
          x2 = showStep1Rule m ll x1;
          x3 = showStep2Rule m ll x2;
          x4 = showTestOutputRule m ll x3;
          x5 = onlyFailedGoRule m buildStep ll x4;
          st3 = outputActionsRule m ll (snd x5);
          st4 = failRule m ll st3
      in onlyFailedRule m fmtG ll st4)"

subsection \<open>The scan\<close>

text \<open>
  The input of the two loops is the list of the lines that \<^verbatim>\<open>s.Scan()\<close> yields, in order.
  The header loop prints every line up to and including the first empty one; it returns what it
  printed and the lines left.
\<close>

fun headerLoop :: "mode \<Rightarrow> string list \<Rightarrow> string list \<times> string list" where
  "headerLoop m [] = ([], [])"
| "headerLoop m (l # ls) =
     (let p = (if has m modeShowHeader then [l] else []) in
      if l = [] then (p, ls)
      else (let (ps, r) = headerLoop m ls in (p @ ps, r)))"

text \<open>
  The main loop. The result is the panic, if any, and the state reached (with the output
  printed so far).
\<close>

fun mainScan ::
  "mode \<Rightarrow> (string \<Rightarrow> 'f testEvent option) \<Rightarrow> ('f \<Rightarrow> string) \<Rightarrow> 'f state \<Rightarrow> string list
     \<Rightarrow> error option \<times> 'f state" where
  "mainScan m decode fmtG st [] = (None, st)"
| "mainScan m decode fmtG st (l # ls) =
     (if has m modeRawText then mainScan m decode fmtG (print l st) ls
      else if suffix '' tests processed.'' l
        then (None, if has m modeShowHeader then print l st else st)
      else if prefix ''Current time: '' l then (None, print l st)
      else (case logparse l of
              Inl e \<Rightarrow> (Some e, st)
            | Inr None \<Rightarrow> mainScan m decode fmtG st ls
            | Inr (Some ll) \<Rightarrow>
                (case treeize (stack st) ll of
                   Inl e \<Rightarrow> (Some e, st)
                 | Inr stk \<Rightarrow>
                     if topOfStackIs stk ''Test Output'' then
                       (case ls of
                          [] \<Rightarrow> (Some TestOutputNotFollowed, st\<lparr> stack := stk \<rparr>)
                        | a # ls' \<Rightarrow>
                            mainScan m decode fmtG
                              (processRecord m decode fmtG (ll\<lparr> addtext := a \<rparr>)
                                 (st\<lparr> stack := stk \<rparr>)) ls')
                     else
                       mainScan m decode fmtG
                         (processRecord m decode fmtG ll (st\<lparr> stack := stk \<rparr>)) ls)))"

definition cleanupLog ::
  "(string \<Rightarrow> 'f testEvent option) \<Rightarrow> ('f \<Rightarrow> string) \<Rightarrow> string list \<Rightarrow> int
     \<Rightarrow> error option \<times> 'f state" where
  "cleanupLog decode fmtG logbody verbose =
     (let m = modeOf verbose;
          (printed, ls) = headerLoop m logbody
      in mainScan m decode fmtG (initState\<lparr> out := printed \<rparr>) ls)"

subsection \<open>From bytes to lines and back\<close>







section \<open>Reference functions for the statements\<close>

text \<open>
  The value of a two-character numeric field of the timestamp, as the grammar reads it: two
  decimal digits have their decimal value; a sign and a digit are accepted by \<^verbatim>\<open>Atoi\<close> too;
  every other field fails to parse and counts as 0.
\<close>

definition fieldValue :: "char \<Rightarrow> char \<Rightarrow> int" where
  "fieldValue a b =
     (if isDigit a \<and> isDigit b then digitVal a * 10 + digitVal b
      else if a = CHR ''-'' \<and> isDigit b then - digitVal b
      else if a = CHR ''+'' \<and> isDigit b then digitVal b
      else 0)"

text \<open>
  The flush of the only-failed buffer, as the specification words it: the output fragment of
  every buffered event whose action is \<^verbatim>\<open>output\<close>, in buffer order, each printed in massaged
  form with the time of its own record.
\<close>

definition bufferedOutputs :: "'f logline list \<Rightarrow> ('f logline \<times> string) list" where
  "bufferedOutputs cs =
     List.map_filter
       (\<lambda>c. case testEvent c of
              None \<Rightarrow> None
            | Some te \<Rightarrow> if Action te = ''output'' then Some (c, Output te) else None) cs"

definition emitAll :: "('f logline \<times> string) list \<Rightarrow> 'f state \<Rightarrow> 'f state" where
  "emitAll rows st = fold (\<lambda>(c, t) s. emitMassaged c t s) rows st"

section \<open>Properties\<close>

lemmas mode_defs = modeRawText_def modeShowHeader_def modeShowTestOutput_def modeShowRoot_def
  modeShowStep1_def modeShowStep2_def modeShowStep2Top_def modeShowStep2OutputActions_def
  modeSkipBeforeDwz_def modeSkipJson_def modeSkipBeforeMakeTest_def modeMassaged_def
  modeShowOnlyFailed_def

lemma mode0_flags:
  "\<not> has (modeOf 0) modeRawText" "has (modeOf 0) modeShowHeader"
  "\<not> has (modeOf 0) modeShowTestOutput" "\<not> has (modeOf 0) modeShowRoot"
  "\<not> has (modeOf 0) modeShowStep1" "\<not> has (modeOf 0) modeShowStep2"
  "has (modeOf 0) modeShowStep2Top" "\<not> has (modeOf 0) modeShowStep2OutputActions"
  "\<not> has (modeOf 0) modeSkipBeforeDwz" "has (modeOf 0) modeSkipJson"
  "has (modeOf 0) modeSkipBeforeMakeTest" "has (modeOf 0) modeMassaged"
  "has (modeOf 0) modeShowOnlyFailed"
  by (simp_all add: has_def modeOf_def mode_defs)

lemma mode1_flags:
  "\<not> has (modeOf 1) modeRawText" "has (modeOf 1) modeShowHeader"
  "\<not> has (modeOf 1) modeShowTestOutput" "\<not> has (modeOf 1) modeShowRoot"
  "\<not> has (modeOf 1) modeShowStep1" "\<not> has (modeOf 1) modeShowStep2"
  "has (modeOf 1) modeShowStep2Top" "has (modeOf 1) modeShowStep2OutputActions"
  "has (modeOf 1) modeSkipBeforeDwz" "has (modeOf 1) modeSkipJson"
  "\<not> has (modeOf 1) modeSkipBeforeMakeTest" "has (modeOf 1) modeMassaged"
  "\<not> has (modeOf 1) modeShowOnlyFailed"
  by (simp_all add: has_def modeOf_def mode_defs)

lemma mode2_flags:
  "\<not> has (modeOf 2) modeRawText" "has (modeOf 2) modeShowHeader"
  "has (modeOf 2) modeShowTestOutput" "has (modeOf 2) modeShowRoot"
  "has (modeOf 2) modeShowStep1" "has (modeOf 2) modeShowStep2"
  "\<not> has (modeOf 2) modeShowStep2Top" "\<not> has (modeOf 2) modeShowStep2OutputActions"
  "\<not> has (modeOf 2) modeSkipBeforeDwz" "has (modeOf 2) modeSkipJson"
  "\<not> has (modeOf 2) modeSkipBeforeMakeTest" "has (modeOf 2) modeMassaged"
  "\<not> has (modeOf 2) modeShowOnlyFailed"
  by (simp_all add: has_def modeOf_def mode_defs)














section \<open>Raw mode\<close>








section \<open>Context tracker: the two loops of treeize\<close>

lemma length_fold_update: "length (fold (\<lambda>i a. a[f i := g i]) js a) = length a"
  by (induction js arbitrary: a) auto

lemma nth_zero_fill:
  "j < length a \<Longrightarrow>
   fold (\<lambda>i a. a[i := v]) [p..<n] a ! j = (if p \<le> j \<and> j < n then v else a ! j)"
proof (induction n)
  case 0
  then show ?case by auto
next
  case (Suc n)
  let ?b = "fold (\<lambda>i a. a[i := v]) [p..<n] a"
  have lb: "length ?b = length a" by (rule length_fold_update)
  show ?case
  proof (cases "p \<le> n")
    case True
    then have step: "fold (\<lambda>i a. a[i := v]) [p..<Suc n] a = ?b[n := v]"
      by simp
    show ?thesis
    proof (cases "j = n")
      case True
      with Suc.prems lb \<open>p \<le> n\<close> show ?thesis unfolding step by simp
    next
      case False
      then have "?b[n := v] ! j = ?b ! j" by simp
      with Suc False show ?thesis unfolding step by auto
    qed
  next
    case False
    with Suc show ?thesis by auto
  qed
qed

lemma nth_write_tags:
  "j < length a \<Longrightarrow>
   fold (\<lambda>i a. a[off + i := ts ! i]) [0..<k] a ! j
     = (if off \<le> j \<and> j < off + k then ts ! (j - off) else a ! j)"
proof (induction k)
  case 0
  then show ?case by auto
next
  case (Suc k)
  let ?b = "fold (\<lambda>i a. a[off + i := ts ! i]) [0..<k] a"
  have lb: "length ?b = length a" by (rule length_fold_update)
  have step: "fold (\<lambda>i a. a[off + i := ts ! i]) [0..<Suc k] a = ?b[off + k := ts ! k]"
    by simp
  show ?case
  proof (cases "j = off + k")
    case True
    with Suc.prems lb show ?thesis unfolding step by simp
  next
    case False
    then have "?b[off + k := ts ! k] ! j = ?b ! j" by simp
    with Suc False show ?thesis unfolding step by auto
  qed
qed

lemma treeize_ok:
  assumes "length (tags ll) \<le> indent ll" "indent ll \<le> cap stk"
  shows "treeize stk ll =
           Inr \<lparr> backing =
                   fold (\<lambda>i a. a[indent ll - length (tags ll) + i := tags ll ! i])
                     [0..<length (tags ll)]
                     (fold (\<lambda>i a. a[i := []]) [slen stk..<indent ll] (backing stk)),
                 slen = indent ll \<rparr>"
  using assms by (simp add: treeize_def Let_def)

lemma treeize_cap: "treeize stk ll = Inr s \<Longrightarrow> cap s = cap stk"
  by (auto simp: treeize_def Let_def cap_def length_fold_update split: if_splits)

lemma treeize_slen: "treeize stk ll = Inr s \<Longrightarrow> slen s = indent ll \<and> slen s \<le> cap s"
  by (auto simp: treeize_def Let_def cap_def length_fold_update split: if_splits)

text \<open>
  C10. The context-tracker update is partial. On the stack of \<^verbatim>\<open>cleanupLog\<close> (capacity 20)
  it panics with a slice-bounds error when the indentation exceeds 20, with an index error
  when the record has more tags than its indentation, and returns a stack exactly when
  \<open>length tags \<le> indent \<le> 20\<close>.
\<close>

theorem treeize_partial:
  assumes "cap stk = 20"
  shows "(20 < indent ll \<longrightarrow> treeize stk ll = Inl (SliceBoundsOutOfRange (indent ll) 20))
       \<and> (indent ll \<le> 20 \<and> indent ll < length (tags ll)
            \<longrightarrow> treeize stk ll = Inl IndexOutOfRange)
       \<and> ((\<exists>s. treeize stk ll = Inr s) = (length (tags ll) \<le> indent ll \<and> indent ll \<le> 20))"
  using assms by (auto simp: treeize_def Let_def)

theorem treeize_partial_witness:
  "cap newStack = 20
   \<and> treeize newStack (\<lparr> raw = [], time = 0, indent = 21, tags = [], text' = [], addtext = [],
                          testEvent = None \<rparr> :: unit logline)
       = Inl (SliceBoundsOutOfRange 21 20)
   \<and> treeize newStack (\<lparr> raw = [], time = 0, indent = 1, tags = [''a'', ''b''], text' = [],
                          addtext = [], testEvent = None \<rparr> :: unit logline)
       = Inl IndexOutOfRange
   \<and> (\<exists>s. treeize newStack (\<lparr> raw = [], time = 0, indent = 2, tags = [''a'', ''b''], text' = [],
                          addtext = [], testEvent = None \<rparr> :: unit logline) = Inr s)"
proof -
  have c: "cap newStack = 20" by (simp add: cap_def newStack_def)
  from treeize_partial[OF c, of "\<lparr> raw = [], time = 0, indent = 21, tags = [], text' = [],
      addtext = [], testEvent = None \<rparr> :: unit logline"]
    treeize_partial[OF c, of "\<lparr> raw = [], time = 0, indent = 1, tags = [''a'', ''b''],
      text' = [], addtext = [], testEvent = None \<rparr> :: unit logline"]
    treeize_partial[OF c, of "\<lparr> raw = [], time = 0, indent = 2, tags = [''a'', ''b''],
      text' = [], addtext = [], testEvent = None \<rparr> :: unit logline"]
    c
  show ?thesis by simp
qed

text \<open>
  C7 (as amended). For a record with indentation \<open>d\<close> and tags \<open>ts\<close> where
  \<open>length ts \<le> d \<le> 20\<close>, on a stack of capacity 20: the update returns a stack of length
  exactly \<open>d\<close> whose last \<open>length ts\<close> slots are the tags in order, whose slots between the
  previous length and \<open>d - length ts\<close> are empty strings, and whose slots below both are
  unchanged.
\<close>

theorem treeize_path:
  assumes "cap stk = 20" "slen stk \<le> 20"
    and "length (tags ll) \<le> indent ll" "indent ll \<le> 20"
  shows "\<exists>s. treeize stk ll = Inr s
           \<and> slen s = indent ll
           \<and> length (view s) = indent ll
           \<and> drop (indent ll - length (tags ll)) (view s) = tags ll
           \<and> (\<forall>i. slen stk \<le> i \<and> i < indent ll - length (tags ll) \<longrightarrow> view s ! i = [])
           \<and> (\<forall>i. i < slen stk \<and> i < indent ll - length (tags ll)
                  \<longrightarrow> view s ! i = view stk ! i)"
proof -
  define d where "d = indent ll"
  define ts where "ts = tags ll"
  define a1 where "a1 = fold (\<lambda>i a. a[i := []]) [slen stk..<d] (backing stk)"
  define a2 where "a2 = fold (\<lambda>i a. a[d - length ts + i := ts ! i]) [0..<length ts] a1"
  define s where "s = \<lparr> backing = a2, slen = d \<rparr>"
  have len: "length (backing stk) = 20" using assms(1) by (simp add: cap_def)
  have l1: "length a1 = 20" by (simp add: a1_def length_fold_update len)
  have l2: "length a2 = 20" by (simp add: a2_def length_fold_update l1)
  have kd: "length ts \<le> d" "d \<le> 20" using assms(3,4) by (simp_all add: d_def ts_def)
  have eq: "treeize stk ll = Inr s"
    using treeize_ok[of ll stk] assms
    by (simp add: s_def a2_def a1_def d_def ts_def cap_def)
  have nth2: "a2 ! j = (if d - length ts \<le> j \<and> j < d then ts ! (j - (d - length ts))
                        else a1 ! j)" if "j < 20" for j
    using that kd nth_write_tags[of j a1 "d - length ts" ts "length ts"]
    by (simp add: a2_def l1)
  have nth1: "a1 ! j = (if slen stk \<le> j \<and> j < d then [] else backing stk ! j)"
    if "j < 20" for j
    using that nth_zero_fill[of j "backing stk" "[]" "slen stk" d] by (simp add: a1_def len)
  have v: "view s = take d a2" by (simp add: view_def s_def)
  have lv: "length (view s) = d" using kd by (simp add: v l2)
  have tagsv: "drop (d - length ts) (view s) = ts"
  proof (rule nth_equalityI)
    show "length (drop (d - length ts) (view s)) = length ts" using kd by (simp add: lv)
  next
    fix i assume "i < length (drop (d - length ts) (view s))"
    then have i: "i < length ts" using kd by (simp add: lv)
    define j where "j = d - length ts + i"
    have j: "d - length ts \<le> j" "j < d" "j - (d - length ts) = i" "j < 20"
      using kd i by (simp_all add: j_def)
    have "drop (d - length ts) (view s) ! i = view s ! j"
      using kd by (simp add: j_def lv)
    also have "\<dots> = a2 ! j" using j by (simp add: v)
    also have "\<dots> = ts ! i" using nth2[OF j(4)] j by simp
    finally show "drop (d - length ts) (view s) ! i = ts ! i" .
  qed
  have zero: "view s ! i = []" if "slen stk \<le> i" "i < d - length ts" for i
  proof -
    have i: "i < d" "i < 20" "\<not> d - length ts \<le> i" using that kd by simp_all
    have "view s ! i = a2 ! i" using i by (simp add: v)
    also have "\<dots> = a1 ! i" using nth2[OF i(2)] i by simp
    also have "\<dots> = []" using nth1[OF i(2)] i that by simp
    finally show ?thesis .
  qed
  have keep: "view s ! i = view stk ! i" if "i < slen stk" "i < d - length ts" for i
  proof -
    have i: "i < d" "i < 20" "\<not> d - length ts \<le> i" "\<not> slen stk \<le> i"
      using that kd by simp_all
    have "view s ! i = a2 ! i" using i by (simp add: v)
    also have "\<dots> = a1 ! i" using nth2[OF i(2)] i by simp
    also have "\<dots> = backing stk ! i" using nth1[OF i(2)] i by simp
    also have "\<dots> = view stk ! i" using that by (simp add: view_def)
    finally show ?thesis .
  qed
  from eq lv tagsv zero keep show ?thesis
    by (intro exI[of _ s]) (simp add: s_def d_def ts_def)
qed


theorem treeize_path_witness:
  "\<exists>s. treeize newStack (\<lparr> raw = [], time = 0, indent = 3, tags = [''t''], text' = [],
                            addtext = [], testEvent = None \<rparr> :: unit logline) = Inr s
       \<and> view s = [[], [], ''t'']"
proof -
  let ?ll = "\<lparr> raw = [], time = 0, indent = 3, tags = [''t''], text' = [],
               addtext = [], testEvent = None \<rparr> :: unit logline"
  have h: "cap newStack = 20" "slen newStack \<le> 20" "length (tags ?ll) \<le> indent ?ll"
    "indent ?ll \<le> 20"
    by (simp_all add: cap_def newStack_def)
  from treeize_path[OF h] obtain s where s: "treeize newStack ?ll = Inr s"
    "length (view s) = 3" "drop 2 (view s) = [''t'']"
    "\<forall>i. slen newStack \<le> i \<and> i < 2 \<longrightarrow> view s ! i = []"
    by auto
  from s(2) obtain x0 x1 x2 where v: "view s = [x0, x1, x2]"
    by (auto simp: length_Suc_conv numeral_3_eq_3)
  from s(4) have "view s ! 0 = []" "view s ! 1 = []" by (simp_all add: newStack_def)
  with s(3) v have "view s = [[], [], ''t'']" by simp
  with s(1) show ?thesis by blast
qed

text \<open>
  The claim as stated has no upper bound on the indentation: a record with 25 leading tabs and
  one tag satisfies \<open>d \<ge> length tags\<close>, and the update panics on it.
\<close>

theorem treeize_deep_counterexample:
  "treeize newStack (\<lparr> raw = [], time = 0, indent = 25, tags = [''x''], text' = [],
                       addtext = [], testEvent = None \<rparr> :: unit logline)
     = Inl (SliceBoundsOutOfRange 25 20)"
  by (simp add: treeize_def cap_def newStack_def)

section \<open>Line parser\<close>

lemma skipTabs_replicate:
  "rest = [] \<or> hd rest \<noteq> TAB \<Longrightarrow> skipTabs (replicate n TAB @ rest) k = (k + n, rest)"
proof (induction n arbitrary: k)
  case 0
  then show ?case by (cases rest) auto
next
  case (Suc n)
  then show ?case by simp
qed

lemma atoiOrZero_two: "atoiOrZero [a, b] = fieldValue a b"
  by (auto simp: atoiOrZero_def Atoi_def fieldValue_def isDigit_def Let_def
           split: option.splits)

text \<open>
  C8. A line that starts with a bracket and follows the fixed grammar of the timestamp, the
  flag byte and the colon is parsed, whatever the six characters of the numeric fields are:
  the time is \<open>hour * 3600 + minute * 60 + second\<close>, where a field of two digits has its
  decimal value and a field that fails to parse counts as 0, and the indentation is the number
  of tabs that follow the colon.
\<close>

theorem logparse_timestamp_indent:
  assumes "rest = [] \<or> hd rest \<noteq> TAB"
  shows "(\<exists>ll. logparse ([CHR ''['', h1, h2, CHR '':'', m1, m2, CHR '':'', s1, s2, CHR '']'',
                          flag, CHR '':''] @ replicate n TAB @ rest) = Inr (Some ll)
           \<and> time ll = fieldValue h1 h2 * 3600 + fieldValue m1 m2 * 60 + fieldValue s1 s2
           \<and> indent ll = n)
       \<and> (\<forall>a b. isDigit a \<and> isDigit b \<longrightarrow>
                  Atoi [a, b] = Some (digitVal a * 10 + digitVal b)
                  \<and> fieldValue a b = digitVal a * 10 + digitVal b)
       \<and> (\<forall>a b. Atoi [a, b] = None \<longrightarrow> fieldValue a b = 0)"
proof -
  have z: "Atoi [a, b] = None \<longrightarrow> fieldValue a b = 0" for a b
    using atoiOrZero_two[of a b] by (auto simp: atoiOrZero_def)
  have d: "isDigit a \<and> isDigit b \<longrightarrow>
             Atoi [a, b] = Some (digitVal a * 10 + digitVal b)
             \<and> fieldValue a b = digitVal a * 10 + digitVal b" for a b
    by (auto simp: fieldValue_def Atoi_def isDigit_def)
  have "\<exists>ll. logparse ([CHR ''['', h1, h2, CHR '':'', m1, m2, CHR '':'', s1, s2, CHR '']'',
                          flag, CHR '':''] @ replicate n TAB @ rest) = Inr (Some ll)
           \<and> time ll = fieldValue h1 h2 * 3600 + fieldValue m1 m2 * 60 + fieldValue s1 s2
           \<and> indent ll = n"
    using skipTabs_replicate[OF assms, of n 0]
    by (simp add: logparse_def andThen_def expectByte_def expectLen_def atoiOrZero_two
                  split: prod.splits)
  with z d show ?thesis by blast
qed

theorem logparse_timestamp_indent_witness:
  "(\<exists>ll. logparse ([CHR ''['', CHR ''1'', CHR ''0'', CHR '':'', CHR ''0'', CHR ''0'', CHR '':'',
                     CHR ''0'', CHR ''7'', CHR '']'', CHR '' '', CHR '':'', TAB, TAB]
                    @ '' [Step 2/2] hello'')
            = Inr (Some (ll :: unit logline)) \<and> time ll = 36007 \<and> indent ll = 2)
   \<and> (\<exists>ll. logparse ''[1x:00:07]W:hello''
            = Inr (Some (ll :: unit logline)) \<and> time ll = 7 \<and> indent ll = 0)"
proof -
  have r: "'' [Step 2/2] hello'' = [] \<or> hd '' [Step 2/2] hello'' \<noteq> TAB"
    "''hello'' = [] \<or> hd ''hello'' \<noteq> TAB"
    by (simp_all add: TAB_def)
  have f: "fieldValue (CHR ''1'') (CHR ''0'') = 10" "fieldValue (CHR ''0'') (CHR ''0'') = 0"
    "fieldValue (CHR ''0'') (CHR ''7'') = 7" "fieldValue (CHR ''1'') (CHR ''x'') = 0"
    by (simp_all add: fieldValue_def isDigit_def digitVal_def)
  from logparse_timestamp_indent[OF r(1), of "CHR ''1''" "CHR ''0''" "CHR ''0''" "CHR ''0''"
      "CHR ''0''" "CHR ''7''" "CHR '' ''" 2, where ?'a = unit]
    logparse_timestamp_indent[OF r(2), of "CHR ''1''" "CHR ''x''" "CHR ''0''" "CHR ''0''"
      "CHR ''0''" "CHR ''7''" "CHR ''W''" 0, where ?'a = unit]
  show ?thesis
    by (simp add: f numeral_2_eq_2)
qed

section \<open>Lines that are not records\<close>





section \<open>Evaluation on concrete logs\<close>

lemmas parse_eval = logparse_def andThen_def expectByte_def expectLen_def TAB_def LF_def CR_def
  atoiOrZero_def Atoi_def isDigit_def digitVal_def parseTags.simps consumeMaybe_def Let_def

lemma newStack_unfold:
  "newStack = \<lparr> backing = [[], [], [], [], [], [], [], [], [], [],
                             [], [], [], [], [], [], [], [], [], []], slen = 0 \<rparr>"
  by (simp add: newStack_def eval_nat_numeral)

lemmas stack_eval = treeize_def newStack_unfold cap_def view_def topOfStackIs_def stackHas_def
  isBuildStep_def upt_rec

lemma print_fields [simp]:
  "out (print t st) = out st @ [t]"
  "lastTime (print t st) = lastTime st"
  "first (print t st) = first st"
  "firstMassaged (print t st) = firstMassaged st"
  "afterDwz (print t st) = afterDwz st"
  "afterMakeTest (print t st) = afterMakeTest st"
  "cached (print t st) = cached st"
  by (simp_all add: print_def)

lemma emitMassaged_out:
  "out (emitMassaged ll t st)
     = out st @ (if firstMassaged st then [columnHeader] else [])
       @ [(if time ll - lastTime st > 0 then fmtSpace4d (time ll - lastTime st) else ''    '')
          @ [TAB] @ stripEOL t]"
  by (simp add: emitMassaged_def Let_def)

lemma emitMassaged_fields [simp]:
  "lastTime (emitMassaged ll t st) = time ll"
  "firstMassaged (emitMassaged ll t st) = False"
  "first (emitMassaged ll t st) = first st"
  "afterDwz (emitMassaged ll t st) = afterDwz st"
  "afterMakeTest (emitMassaged ll t st) = afterMakeTest st"
  "cached (emitMassaged ll t st) = cached st"
  by (simp_all add: emitMassaged_def Let_def)

lemma emitMassaged_stack [simp]: "stack (emitMassaged ll t st) = stack st"
  by (simp add: emitMassaged_def print_def Let_def)

lemma print_stack [simp]: "stack (print t st) = stack st"
  by (simp add: print_def)

lemma processRecord_unfold:
  "processRecord m decode fmtG r s =
     onlyFailedRule m fmtG (extractEvent decode (isBuildStep (stack s)) r)
       (failRule m (extractEvent decode (isBuildStep (stack s)) r)
         (outputActionsRule m (extractEvent decode (isBuildStep (stack s)) r)
           (snd (onlyFailedGoRule m (isBuildStep (stack s))
                   (extractEvent decode (isBuildStep (stack s)) r)
              (showTestOutputRule m (extractEvent decode (isBuildStep (stack s)) r)
                (showStep2Rule m (extractEvent decode (isBuildStep (stack s)) r)
                  (showStep1Rule m (extractEvent decode (isBuildStep (stack s)) r)
                    (showRootRule m (extractEvent decode (isBuildStep (stack s)) r)
                      (False,
                       if first (updateFlags (isBuildStep (stack s))
                                   (extractEvent decode (isBuildStep (stack s)) r) s)
                       then (updateFlags (isBuildStep (stack s))
                               (extractEvent decode (isBuildStep (stack s)) r) s)
                             \<lparr> first := False,
                               lastTime := time (extractEvent decode (isBuildStep (stack s)) r) \<rparr>
                       else updateFlags (isBuildStep (stack s))
                              (extractEvent decode (isBuildStep (stack s)) r) s)))))))))"
  by (simp only: processRecord_def Let_def)

lemmas rule_eval = processRecord_unfold extractEvent_def updateFlags_def showRootRule_def
  showStep1Rule_def showStep2Rule_def shouldShow_def showTestOutputRule_def onlyFailedGoRule_def
  outputActionsRule_def failRule_def onlyFailedRule_def emitText_def emitRaw_def
  emitMassaged_out stripEOL_def dumpCached_def dumpOne_def
  topOfStackIs_def stackHas_def view_def isBuildStep_def LF_def CR_def Let_def

lemmas scan_eval = cleanupLog_def initState_def suffix_to_prefix

section \<open>The silent policy before the make-test marker\<close>

lemma extractEvent_fields [simp]:
  "text' (extractEvent decode b ll) = text' ll"
  "time (extractEvent decode b ll) = time ll"
  "raw (extractEvent decode b ll) = raw ll"
  "addtext (extractEvent decode b ll) = addtext ll"
  by (simp_all add: extractEvent_def split: option.splits)

lemma updateFlags_fields [simp]:
  "out (updateFlags b ll st) = out st"
  "stack (updateFlags b ll st) = stack st"
  "cached (updateFlags b ll st) = cached st"
  "first (updateFlags b ll st) = first st"
  "lastTime (updateFlags b ll st) = lastTime st"
  "firstMassaged (updateFlags b ll st) = firstMassaged st"
  by (simp_all add: updateFlags_def Let_def)

lemma updateFlags_no_marker:
  assumes "\<not> afterMakeTest st"
    and "b \<longrightarrow> \<not> prefix ''+ make test'' (text' ll) \<and> \<not> prefix ''Finding latest patch'' (text' ll)"
  shows "\<not> afterMakeTest (updateFlags b ll st)"
  using assms by (auto simp: updateFlags_def Let_def)

text \<open>
  C6 (as amended). In the silent policy, a record processed while the make-test marker (or
  the fallback marker) has not been seen, and that is not itself such a marker inside a primary
  build step, prints nothing, unless it is inside a primary build step with a text that starts
  with \<^verbatim>\<open>Go \<close> or it carries a decoded event (which goes to the only-failed aggregation).
  The state is the one after the context-tracker update for the record.
\<close>

theorem silent_before_make_test:
  assumes "\<not> afterMakeTest st"
    and "isBuildStep (stack st) \<longrightarrow>
           \<not> prefix ''+ make test'' (text' ll) \<and> \<not> prefix ''Finding latest patch'' (text' ll)
           \<and> \<not> prefix ''Go '' (text' ll)"
    and "testEvent (extractEvent decode (isBuildStep (stack st)) ll) = None"
  shows "out (processRecord (modeOf 0) decode fmtG ll st) = out st
       \<and> \<not> afterMakeTest (processRecord (modeOf 0) decode fmtG ll st)"
proof -
  define b where "b = isBuildStep (stack st)"
  define ll1 where "ll1 = extractEvent decode b ll"
  define st1 where "st1 = updateFlags b ll1 st"
  define st2 where "st2 = (if first st1 then st1\<lparr> first := False, lastTime := time ll1 \<rparr> else st1)"
  have nm: "\<not> afterMakeTest st1"
    unfolding st1_def using assms(1,2) by (intro updateFlags_no_marker) (auto simp: b_def ll1_def)
  then have nm2: "\<not> afterMakeTest st2" by (simp add: st2_def)
  have o2: "out st2 = out st" by (simp add: st2_def st1_def)
  have ev: "testEvent ll1 = None" using assms(3) by (simp add: ll1_def b_def)
  have go: "\<not> (b \<and> prefix ''Go '' (text' ll1))" using assms(2) by (auto simp: ll1_def b_def)
  have x1: "showRootRule (modeOf 0) ll1 (False, st2) = (False, st2)"
    by (simp add: showRootRule_def mode0_flags)
  have x2: "showStep1Rule (modeOf 0) ll1 (False, st2) = (False, st2)"
    by (simp add: showStep1Rule_def mode0_flags)
  have x3: "showStep2Rule (modeOf 0) ll1 (False, st2) = (False, st2)"
    using nm2 by (simp add: showStep2Rule_def shouldShow_def mode0_flags)
  have x4: "showTestOutputRule (modeOf 0) ll1 (False, st2) = (False, st2)"
    by (simp add: showTestOutputRule_def mode0_flags)
  have x5: "onlyFailedGoRule (modeOf 0) b ll1 (False, st2) = (False, st2)"
    using go by (auto simp: onlyFailedGoRule_def)
  have s3: "outputActionsRule (modeOf 0) ll1 st2 = st2"
    by (simp add: outputActionsRule_def mode0_flags)
  have s4: "failRule (modeOf 0) ll1 st2 = st2"
    by (simp add: failRule_def mode0_flags)
  have s5: "onlyFailedRule (modeOf 0) fmtG ll1 st2 = st2"
    using ev by (simp add: onlyFailedRule_def)
  have "processRecord (modeOf 0) decode fmtG ll st = st2"
    unfolding processRecord_def Let_def
    unfolding b_def[symmetric] ll1_def[symmetric] st1_def[symmetric] st2_def[symmetric]
    by (simp add: x1 x2 x3 x4 x5 s3 s4 s5)
  with o2 nm2 show ?thesis by simp
qed


theorem silent_before_make_test_witness:
  "out (processRecord (modeOf 0) (\<lambda>_. None) (\<lambda>_. [])
          (\<lparr> raw = [], time = 5, indent = 1, tags = [''Step 2/2''], text' = ''+ go build'',
             addtext = [], testEvent = None \<rparr> :: unit logline)
          (initState\<lparr> stack := \<lparr> backing = ''Step 2/2'' # replicate 19 [], slen = 1 \<rparr> \<rparr>))
     = []
   \<and> isBuildStep \<lparr> backing = ''Step 2/2'' # replicate 19 [], slen = 1 \<rparr>"
proof -
  let ?ll = "\<lparr> raw = [], time = 5, indent = 1, tags = [''Step 2/2''], text' = ''+ go build'',
               addtext = [], testEvent = None \<rparr> :: unit logline"
  let ?st = "initState\<lparr> stack := \<lparr> backing = ''Step 2/2'' # replicate 19 [], slen = 1 \<rparr> \<rparr>
               :: unit state"
  have b: "isBuildStep \<lparr> backing = ''Step 2/2'' # replicate 19 [], slen = 1 \<rparr>"
    by (simp add: isBuildStep_def topOfStackIs_def)
  have h1: "\<not> afterMakeTest ?st" by (simp add: initState_def)
  have h2: "isBuildStep (stack ?st) \<longrightarrow>
           \<not> prefix ''+ make test'' (text' ?ll) \<and> \<not> prefix ''Finding latest patch'' (text' ?ll)
           \<and> \<not> prefix ''Go '' (text' ?ll)"
    by simp
  have h3: "testEvent (extractEvent (\<lambda>_. None) (isBuildStep (stack ?st)) ?ll) = None"
    by (simp add: extractEvent_def)
  from silent_before_make_test[OF h1 h2 h3, of "\<lambda>_. []"] b
  show ?thesis by (simp add: initState_def)
qed

text \<open>
  The claim as stated fails on a record of the primary build step whose text starts with
  \<^verbatim>\<open>Go \<close>: the silent policy prints it although no marker has been seen.
\<close>

theorem silent_go_line_counterexample:
  "out (snd (cleanupLog (\<lambda>_. None :: unit testEvent option) (\<lambda>_. [])
     [[], [CHR ''['', CHR ''1'', CHR ''0'', CHR '':'', CHR ''0'', CHR ''0'', CHR '':'',
           CHR ''0'', CHR ''0'', CHR '']'', CHR '' '', CHR '':'', TAB]
          @ '' [Step 2/2] Go 1.2''] 0))
   = [[], columnHeader, ''    '' @ [TAB] @ ''Go 1.2'']"
  by (simp add: scan_eval mode0_flags parse_eval stack_eval rule_eval)

section \<open>The two spellings of the primary build step\<close>

lemma verbose_step_2_2:
  "out (snd (cleanupLog (\<lambda>_. None :: unit testEvent option) (\<lambda>_. [])
       [[], [CHR ''['', CHR ''1'', CHR ''0'', CHR '':'', CHR ''0'', CHR ''0'', CHR '':'',
             CHR ''0'', CHR ''0'', CHR '']'', CHR '' '', CHR '':'', TAB]
            @ '' [Step 2/2] + dwz --version''] 1))
     = [[], columnHeader, ''    '' @ [TAB] @ ''+ dwz --version'']"
  by (simp add: scan_eval mode0_flags mode1_flags parse_eval stack_eval rule_eval)

lemma verbose_step_1_1:
  "out (snd (cleanupLog (\<lambda>_. None :: unit testEvent option) (\<lambda>_. [])
       [[], [CHR ''['', CHR ''1'', CHR ''0'', CHR '':'', CHR ''0'', CHR ''0'', CHR '':'',
             CHR ''0'', CHR ''0'', CHR '']'', CHR '' '', CHR '':'', TAB]
            @ '' [Step 1/1] + dwz --version''] 1))
     = [[]]"
  by (simp add: scan_eval mode0_flags mode1_flags parse_eval stack_eval rule_eval)

lemma silent_step_2_2:
  "out (snd (cleanupLog (\<lambda>_. None :: unit testEvent option) (\<lambda>_. [])
       [[], [CHR ''['', CHR ''1'', CHR ''0'', CHR '':'', CHR ''0'', CHR ''0'', CHR '':'',
             CHR ''0'', CHR ''0'', CHR '']'', CHR '' '', CHR '':'', TAB]
            @ '' [Step 2/2] + make test''] 0))
     = [[], columnHeader, ''    '' @ [TAB] @ ''+ make test'']"
  by (simp add: scan_eval mode0_flags mode1_flags parse_eval stack_eval rule_eval)

lemma silent_step_1_1:
  "out (snd (cleanupLog (\<lambda>_. None :: unit testEvent option) (\<lambda>_. [])
       [[], [CHR ''['', CHR ''1'', CHR ''0'', CHR '':'', CHR ''0'', CHR ''0'', CHR '':'',
             CHR ''0'', CHR ''0'', CHR '']'', CHR '' '', CHR '':'', TAB]
            @ '' [Step 1/1] + make test''] 0))
     = [[]]"
  by (simp add: scan_eval mode0_flags mode1_flags parse_eval stack_eval rule_eval)

text \<open>
  C2 (the code departs from the claim). The claim: a filter on the innermost slot accepts a
  record under \<^verbatim>\<open>Step 1/1\<close> exactly when it accepts one under \<^verbatim>\<open>Step 2/2\<close>. The
  innermost-slot restriction of the silent and verbose policies tests \<^verbatim>\<open>Step 2/2\<close> only:
  the same line is printed under \<^verbatim>\<open>Step 2/2\<close> and dropped under \<^verbatim>\<open>Step 1/1\<close>, at
  verbosity 1 (first two equations) and at verbosity 0 (last two).
\<close>

theorem step_1_1_innermost_not_shown:
  "out (snd (cleanupLog (\<lambda>_. None :: unit testEvent option) (\<lambda>_. [])
       [[], [CHR ''['', CHR ''1'', CHR ''0'', CHR '':'', CHR ''0'', CHR ''0'', CHR '':'',
             CHR ''0'', CHR ''0'', CHR '']'', CHR '' '', CHR '':'', TAB]
            @ '' [Step 2/2] + dwz --version''] 1))
     = [[], columnHeader, ''    '' @ [TAB] @ ''+ dwz --version'']
   \<and> out (snd (cleanupLog (\<lambda>_. None :: unit testEvent option) (\<lambda>_. [])
       [[], [CHR ''['', CHR ''1'', CHR ''0'', CHR '':'', CHR ''0'', CHR ''0'', CHR '':'',
             CHR ''0'', CHR ''0'', CHR '']'', CHR '' '', CHR '':'', TAB]
            @ '' [Step 1/1] + dwz --version''] 1))
     = [[]]
   \<and> out (snd (cleanupLog (\<lambda>_. None :: unit testEvent option) (\<lambda>_. [])
       [[], [CHR ''['', CHR ''1'', CHR ''0'', CHR '':'', CHR ''0'', CHR ''0'', CHR '':'',
             CHR ''0'', CHR ''0'', CHR '']'', CHR '' '', CHR '':'', TAB]
            @ '' [Step 2/2] + make test''] 0))
     = [[], columnHeader, ''    '' @ [TAB] @ ''+ make test'']
   \<and> out (snd (cleanupLog (\<lambda>_. None :: unit testEvent option) (\<lambda>_. [])
       [[], [CHR ''['', CHR ''1'', CHR ''0'', CHR '':'', CHR ''0'', CHR ''0'', CHR '':'',
             CHR ''0'', CHR ''0'', CHR '']'', CHR '' '', CHR '':'', TAB]
            @ '' [Step 1/1] + make test''] 0))
     = [[]]"
  by (simp only: verbose_step_2_2 verbose_step_1_1 silent_step_2_2 silent_step_1_1 simp_thms)

section \<open>The already-emitted latch\<close>

lemma showTestOutputRule_latch:
  "showTestOutputRule m ll (b, s) = (b, snd (showTestOutputRule m ll (False, s)))"
  by (simp add: showTestOutputRule_def)

lemma emit_cases:
  "emitText ll (False, s) = (True, emitMassaged ll (text' ll) s)"
  "emitRaw ll (False, s) = (True, print (raw ll) s)"
  "emitText ll (True, s) = (True, s)"
  "emitRaw ll (True, s) = (True, s)"
  by (simp_all add: emitText_def emitRaw_def)

lemma showRootRule_cases:
  "showRootRule m ll (True, s) = (True, s)"
  "showRootRule m ll (False, s) = (False, s)
   \<or> showRootRule m ll (False, s) = (True, emitMassaged ll (text' ll) s)
   \<or> showRootRule m ll (False, s) = (True, print (raw ll) s)"
  by (simp_all add: showRootRule_def emit_cases)

lemma showStep1Rule_cases:
  "showStep1Rule m ll (True, s) = (True, s)"
  "showStep1Rule m ll (False, s) = (False, s)
   \<or> showStep1Rule m ll (False, s) = (True, emitMassaged ll (text' ll) s)
   \<or> showStep1Rule m ll (False, s) = (True, print (raw ll) s)"
  by (simp_all add: showStep1Rule_def emit_cases)

lemma showStep2Rule_cases:
  "showStep2Rule m ll (True, s) = (True, s)"
  "showStep2Rule m ll (False, s) = (False, s)
   \<or> showStep2Rule m ll (False, s) = (True, emitMassaged ll (text' ll) s)
   \<or> showStep2Rule m ll (False, s) = (True, print (raw ll) s)"
  by (simp_all add: showStep2Rule_def emit_cases Let_def)

lemma onlyFailedGoRule_cases:
  "onlyFailedGoRule m bs ll (True, s) = (True, s)"
  "onlyFailedGoRule m bs ll (False, s) = (False, s)
   \<or> onlyFailedGoRule m bs ll (False, s) = (True, emitMassaged ll (text' ll) s)"
  by (simp_all add: onlyFailedGoRule_def emit_cases)


lemma latched_display_rules:
  fixes m :: mode and ll :: "'f logline" and st :: "'f state"
  defines "x3 \<equiv> showStep2Rule m ll (showStep1Rule m ll (showRootRule m ll (False, st)))"
  shows "x3 = (False, st) \<or> x3 = (True, emitMassaged ll (text' ll) st)
         \<or> x3 = (True, print (raw ll) st)"
proof -
  let ?P = "\<lambda>x. x = (False, st) \<or> x = (True, emitMassaged ll (text' ll) st)
                \<or> x = (True, print (raw ll) st)"
  have 1: "?P (showRootRule m ll (False, st))"
    using showRootRule_cases(2)[of m ll st] by simp
  have 2: "?P (showStep1Rule m ll x)" if "?P x" for x
    using that showStep1Rule_cases(1)[of m ll] showStep1Rule_cases(2)[of m ll st] by auto
  have 3: "?P (showStep2Rule m ll x)" if "?P x" for x
    using that showStep2Rule_cases(1)[of m ll] showStep2Rule_cases(2)[of m ll st] by auto
  show ?thesis unfolding x3_def by (rule 3, rule 2, rule 1)
qed

text \<open>
  C3 (as amended). In every policy, the own line of a record (its text in massaged form, or
  its raw line) is printed at most once: the rules that show the record itself (root, step 1,
  step 2, the \<^verbatim>\<open>Go \<close> prefix) print through the latch, the first of them that matches
  prints and sets it, and once it is set each of them leaves the state as it is. The rule for
  the auxiliary test output does not look at the latch: what it prints (\<open>aux\<close> below) comes in
  addition to the own line of the record.
\<close>

theorem own_line_emitted_at_most_once:
  "(let x = onlyFailedGoRule m bs ll (showTestOutputRule m ll (showStep2Rule m ll
              (showStep1Rule m ll (showRootRule m ll (False, st)))));
        aux = (\<lambda>s. snd (showTestOutputRule m ll (False, s)))
    in snd x = aux st
       \<or> snd x = aux (emitMassaged ll (text' ll) st)
       \<or> snd x = aux (print (raw ll) st)
       \<or> snd x = emitMassaged ll (text' ll) (aux st))
   \<and> showRootRule m ll (True, s) = (True, s)
   \<and> showStep1Rule m ll (True, s) = (True, s)
   \<and> showStep2Rule m ll (True, s) = (True, s)
   \<and> onlyFailedGoRule m bs ll (True, s) = (True, s)"
proof -
  define x3 where "x3 = showStep2Rule m ll (showStep1Rule m ll (showRootRule m ll (False, st)))"
  define aux where "aux = (\<lambda>s. snd (showTestOutputRule m ll (False, s)))"
  have x4: "showTestOutputRule m ll x3 = (fst x3, aux (snd x3))"
    using showTestOutputRule_latch[of m ll "fst x3" "snd x3"] by (simp add: aux_def)
  have c: "x3 = (False, st) \<or> x3 = (True, emitMassaged ll (text' ll) st)
           \<or> x3 = (True, print (raw ll) st)"
    unfolding x3_def by (rule latched_display_rules)
  have "snd (onlyFailedGoRule m bs ll (showTestOutputRule m ll x3)) = aux st
       \<or> snd (onlyFailedGoRule m bs ll (showTestOutputRule m ll x3))
           = aux (emitMassaged ll (text' ll) st)
       \<or> snd (onlyFailedGoRule m bs ll (showTestOutputRule m ll x3)) = aux (print (raw ll) st)
       \<or> snd (onlyFailedGoRule m bs ll (showTestOutputRule m ll x3))
           = emitMassaged ll (text' ll) (aux st)"
    using c onlyFailedGoRule_cases(1)[of m bs ll] onlyFailedGoRule_cases(2)[of m bs ll "aux st"]
    unfolding x4 by auto
  then show ?thesis
    unfolding Let_def x3_def aux_def
    by (simp add: showRootRule_cases(1) showStep1Rule_cases(1) showStep2Rule_cases(1)
                  onlyFailedGoRule_cases(1))
qed

text \<open>
  An instance where two latched rules match: at verbosity 2 a record under \<^verbatim>\<open>Step 1/2\<close>
  and \<^verbatim>\<open>Step 2/2\<close> is printed by the step-1 rule, and the step-2 rule, which matches too,
  leaves the state as it is.
\<close>

theorem own_line_emitted_at_most_once_witness:
  "showStep2Rule (modeOf 2)
     (\<lparr> raw = [], time = 5, indent = 2, tags = [], text' = ''hello'', addtext = [],
        testEvent = None \<rparr> :: unit logline)
     (showStep1Rule (modeOf 2)
        \<lparr> raw = [], time = 5, indent = 2, tags = [], text' = ''hello'', addtext = [],
          testEvent = None \<rparr>
        (False, initState\<lparr> stack := \<lparr> backing = [''Step 1/2'', ''Step 2/2''], slen = 2 \<rparr> \<rparr>))
   = (True, emitMassaged
        \<lparr> raw = [], time = 5, indent = 2, tags = [], text' = ''hello'', addtext = [],
          testEvent = None \<rparr> ''hello''
        (initState\<lparr> stack := \<lparr> backing = [''Step 1/2'', ''Step 2/2''], slen = 2 \<rparr> \<rparr>))"
proof -
  define ll :: "unit logline" where
    "ll = \<lparr> raw = [], time = 5, indent = 2, tags = [], text' = ''hello'', addtext = [],
            testEvent = None \<rparr>"
  define st :: "unit state" where
    "st = initState\<lparr> stack := \<lparr> backing = [''Step 1/2'', ''Step 2/2''], slen = 2 \<rparr> \<rparr>"
  have a: "showStep1Rule (modeOf 2) ll (False, st) = (True, emitMassaged ll ''hello'' st)"
    by (simp add: showStep1Rule_def mode2_flags stackHas_def view_def st_def ll_def
                  emitText_def)
  have b: "showStep2Rule (modeOf 2) ll (True, emitMassaged ll ''hello'' st)
           = (True, emitMassaged ll ''hello'' st)"
    using own_line_emitted_at_most_once[of "modeOf 2" False ll st "emitMassaged ll ''hello'' st"]
    by blast
  show ?thesis
    unfolding ll_def[symmetric] st_def[symmetric] a b ..
qed

text \<open>
  The claim as stated (every later rule for the same record is suppressed by the latch) fails
  at verbosity 2 on a record under \<^verbatim>\<open>Step 1/2\<close> whose innermost tag is \<^verbatim>\<open>Test Output\<close>:
  the step-1 rule prints its text and the test-output rule then prints its auxiliary line.
\<close>

theorem two_rules_emit_counterexample:
  "out (snd (cleanupLog (\<lambda>_. None :: unit testEvent option) (\<lambda>_. [])
       [[], [CHR ''['', CHR ''1'', CHR ''0'', CHR '':'', CHR ''0'', CHR ''0'', CHR '':'',
             CHR ''0'', CHR ''0'', CHR '']'', CHR '' '', CHR '':'', TAB, TAB]
            @ '' [Step 1/2] [Test Output] t'',
        ''aux''] 2))
     = [[], columnHeader, ''    '' @ [TAB] @ ''t'', ''    '' @ [TAB] @ ''aux'']"
  by (simp add: scan_eval mode2_flags parse_eval stack_eval rule_eval)

section \<open>Only-failed aggregation\<close>



lemma emitAll_simps [simp]:
  "emitAll [] st = st"
  "emitAll ((c, t) # rows) st = emitAll rows (emitMassaged c t st)"
  by (simp_all add: emitAll_def)



lemma bufferedOutputs_append:
  "bufferedOutputs (cs @ ds) = bufferedOutputs cs @ bufferedOutputs ds"
  by (simp add: bufferedOutputs_def map_filter_def)

lemma emitAll_append: "emitAll (rs @ qs) st = emitAll qs (emitAll rs st)"
  by (simp add: emitAll_def)

lemma cached_events_step:
  assumes "\<forall>c\<in>set (cached st). testEvent c \<noteq> None"
  shows "\<forall>c\<in>set (cached (onlyFailedRule m fmtG ll st)). testEvent c \<noteq> None"
  using assms
  by (auto simp: onlyFailedRule_def dumpCached_def Let_def split: option.splits)


lemma rules_cached [simp]:
  "cached (snd (emitText ll x)) = cached (snd x)"
  "cached (snd (emitRaw ll x)) = cached (snd x)"
  "cached (snd (showRootRule m ll x)) = cached (snd x)"
  "cached (snd (showStep1Rule m ll x)) = cached (snd x)"
  "cached (snd (showStep2Rule m ll x)) = cached (snd x)"
  "cached (snd (showTestOutputRule m ll x)) = cached (snd x)"
  "cached (snd (onlyFailedGoRule m b ll x)) = cached (snd x)"
  "cached (outputActionsRule m ll st) = cached st"
  "cached (failRule m ll st) = cached st"
  by (simp_all add: emitText_def emitRaw_def showRootRule_def showStep1Rule_def
        showStep2Rule_def showTestOutputRule_def onlyFailedGoRule_def outputActionsRule_def
        failRule_def Let_def split: option.splits)

lemma cached_events_record:
  assumes "\<forall>c\<in>set (cached st). testEvent c \<noteq> None"
  shows "\<forall>c\<in>set (cached (processRecord m decode fmtG ll st)). testEvent c \<noteq> None"
  unfolding processRecord_unfold
  by (rule cached_events_step) (use assms in simp)

lemma cached_events:
  assumes "\<forall>c\<in>set (cached st). testEvent c \<noteq> None"
  shows "\<forall>c\<in>set (cached (snd (mainScan m decode fmtG st ls))). testEvent c \<noteq> None"
  using assms
proof (induction m decode fmtG st ls rule: mainScan.induct)
  case (1 m decode fmtG st)
  then show ?case by simp
next
  case (2 m decode fmtG st l ls)
  have st: "\<forall>c\<in>set (cached (st\<lparr> stack := stk \<rparr>)). testEvent c \<noteq> None" for stk
    using 2(5) by simp
  show ?case
  proof (cases "has m modeRawText")
    case True
    with 2(1)[OF True] 2(5) show ?thesis by simp
  next
    case raw: False
    show ?thesis
    proof (cases "suffix '' tests processed.'' l \<or> prefix ''Current time: '' l")
      case True
      with raw 2(5) show ?thesis by auto
    next
      case ns: False
      show ?thesis
      proof (cases "logparse l :: error + 'a logline option")
        case (Inl e)
        with raw ns 2(5) show ?thesis by simp
      next
        case (Inr r)
        show ?thesis
        proof (cases r)
          case None
          with 2(2)[OF raw _ _ Inr] raw ns Inr 2(5) show ?thesis by simp
        next
          case (Some ll)
          show ?thesis
          proof (cases "treeize (stack st) ll")
            case (Inl e)
            with raw ns Inr Some 2(5) show ?thesis by simp
          next
            case tz: (Inr stk)
            show ?thesis
            proof (cases "topOfStackIs stk ''Test Output''")
              case True
              show ?thesis
              proof (cases ls)
                case Nil
                with raw ns Inr Some tz True 2(5) show ?thesis by simp
              next
                case (Cons a ls')
                have "\<forall>c\<in>set (cached (processRecord m decode fmtG (ll\<lparr> addtext := a \<rparr>)
                         (st\<lparr> stack := stk \<rparr>))). testEvent c \<noteq> None"
                  by (rule cached_events_record) (rule st)
                with 2(3)[OF raw _ _ Inr Some tz True Cons] raw ns Inr Some tz True Cons
                show ?thesis by simp
              qed
            next
              case False
              have "\<forall>c\<in>set (cached (processRecord m decode fmtG ll
                       (st\<lparr> stack := stk \<rparr>))). testEvent c \<noteq> None"
                by (rule cached_events_record) (rule st)
              with 2(4)[OF raw _ _ Inr Some tz False] raw ns Inr Some tz False
              show ?thesis by simp
            qed
          qed
        qed
      qed
    qed
  qed
qed










lemma fmtSpace4d_7: "fmtSpace4d 7 = ''   7''"
  by code_simp



text \<open>
  The first sequence through the whole scan at verbosity 0, with a decoder that knows the two
  payloads: the header line, the column header, the fragment and the \<^verbatim>\<open>FAIL\<close> line.
\<close>

lemma only_failed_end_to_end:
  \<open>out (snd (cleanupLog
       (\<lambda>t. if t = ''{pkg:A,action:output,out:x}''
            then Some \<lparr> Time = [], Action = ''output'', Package = ''A'', Test = [],
                        Elapsed = ''0'', Output = [CHR ''x'', LF] \<rparr>
            else if t = ''{pkg:A,action:fail}''
            then Some \<lparr> Time = [], Action = ''fail'', Package = ''A'', Test = [],
                        Elapsed = ''0.2'', Output = [] \<rparr>
            else None)
       (\<lambda>e. e)
       [[],
        [CHR ''['', CHR ''1'', CHR ''0'', CHR '':'', CHR ''0'', CHR ''0'', CHR '':'',
         CHR ''0'', CHR ''0'', CHR '']'', CHR '' '', CHR '':'', TAB]
        @ '' [Step 2/2] {pkg:A,action:output,out:x}'',
        [CHR ''['', CHR ''1'', CHR ''0'', CHR '':'', CHR ''0'', CHR ''0'', CHR '':'',
         CHR ''0'', CHR ''7'', CHR '']'', CHR '' '', CHR '':'', TAB]
        @ '' [Step 2/2] {pkg:A,action:fail}''] 0))
   = [[], columnHeader, ''    '' @ [TAB] @ ''x'', ''   7'' @ [TAB] @ ''A'' @ [TAB] @ ''FAIL'']\<close>
  by (simp add: scan_eval mode0_flags parse_eval stack_eval rule_eval fmtSpace4d_7)

end
